theory Spec2Isabelle
  imports Complex_Main "HOL-Library.Multiset"
begin

section \<open>The patients query pipeline of \<open>src/app/api/patients/route.ts\<close>\<close>

text \<open>
  The route handler \<open>GET\<close> parses the query string, validates the sort parameters, loads
  the patient collection and runs it through \<open>filterPatients\<close>, \<open>sortPatients\<close> and
  \<open>paginateResults\<close>. Each of these is embedded below as a HOL function, together with
  the parts of the JavaScript platform they call.

  Modelling conventions.
  \<^item> JavaScript strings are \<open>string\<close>: a character is one code unit below 256, that is
    the Latin-1 range U+0000 to U+00FF. Strings with other code units are outside the
    model; \<open>toLowerCase\<close>, \<open>trim\<close> and \<open>parseInt\<close> are given in full on this range.
  \<^item> JavaScript numbers are \<open>jsnum\<close>: \<open>NaN\<close>, the two infinities, or a rational.
    \<open>parseInt\<close> rounds its result to a double and overflows to an infinity as the
    platform does. The finite results of \<open>+\<close>, \<open>-\<close>, \<open>*\<close> and \<open>/\<close> are exact; they are
    applied to the length of an array (below \<open>2^32\<close>), a limit from 1 to 100 and a page
    number, where rounding changes no result of the pipeline: a quotient
    \<open>total / limit\<close> that is not an integer is at least \<open>1/100\<close> away from one, and an
    offset beyond \<open>2^53\<close> is beyond every array. The sign of zero is not modelled.
  \<^item> \<open>String.prototype.localeCompare\<close> depends on the host's collation data; the sort
    stage takes it as the parameter \<open>lc\<close>.
\<close>

subsection \<open>Numbers\<close>

datatype jsnum = NaN | PosInf | NegInf | Fin rat

text \<open>Binary \<open>+\<close>, unary \<open>-\<close>, binary \<open>-\<close>, \<open>*\<close> and \<open>/\<close> of ECMAScript numbers.\<close>

fun js_add :: "jsnum \<Rightarrow> jsnum \<Rightarrow> jsnum" where
  "js_add NaN _ = NaN"
| "js_add _ NaN = NaN"
| "js_add (Fin a) (Fin b) = Fin (a + b)"
| "js_add PosInf NegInf = NaN"
| "js_add NegInf PosInf = NaN"
| "js_add PosInf _ = PosInf"
| "js_add _ PosInf = PosInf"
| "js_add NegInf _ = NegInf"
| "js_add _ NegInf = NegInf"

fun js_neg :: "jsnum \<Rightarrow> jsnum" where
  "js_neg NaN = NaN"
| "js_neg PosInf = NegInf"
| "js_neg NegInf = PosInf"
| "js_neg (Fin a) = Fin (- a)"

definition js_sub :: "jsnum \<Rightarrow> jsnum \<Rightarrow> jsnum" where
  "js_sub a b = js_add a (js_neg b)"

text \<open>The sign of a number that is not \<open>NaN\<close>: \<open>-1\<close>, \<open>0\<close> or \<open>1\<close>.\<close>

fun js_sign :: "jsnum \<Rightarrow> int" where
  "js_sign NaN = 0"
| "js_sign PosInf = 1"
| "js_sign NegInf = - 1"
| "js_sign (Fin a) = (if a < 0 then - 1 else if a = 0 then 0 else 1)"

fun js_mul :: "jsnum \<Rightarrow> jsnum \<Rightarrow> jsnum" where
  "js_mul NaN _ = NaN"
| "js_mul _ NaN = NaN"
| "js_mul (Fin a) (Fin b) = Fin (a * b)"
| "js_mul a b =
     (if js_sign a * js_sign b = 0 then NaN
      else if js_sign a * js_sign b > 0 then PosInf else NegInf)"

fun js_div :: "jsnum \<Rightarrow> jsnum \<Rightarrow> jsnum" where
  "js_div NaN _ = NaN"
| "js_div _ NaN = NaN"
| "js_div (Fin a) (Fin b) =
     (if b = 0 then (if a = 0 then NaN else if a > 0 then PosInf else NegInf)
      else Fin (a / b))"
| "js_div (Fin a) _ = Fin 0"
| "js_div a (Fin b) =
     (if js_sign a * (if b < 0 then - 1 else 1) > 0 then PosInf else NegInf)"
| "js_div _ _ = NaN"

text \<open>\<open>Math.ceil\<close>, \<open>Math.max\<close> and \<open>Math.min\<close> (of two arguments), and \<open>isNaN\<close>.\<close>

fun Math_ceil :: "jsnum \<Rightarrow> jsnum" where
  "Math_ceil (Fin a) = Fin (of_int \<lceil>a\<rceil>)"
| "Math_ceil x = x"

fun js_le :: "jsnum \<Rightarrow> jsnum \<Rightarrow> bool" where
  "js_le NaN _ = False"
| "js_le _ NaN = False"
| "js_le NegInf _ = True"
| "js_le _ PosInf = True"
| "js_le (Fin a) (Fin b) = (a \<le> b)"
| "js_le _ _ = False"

definition Math_max :: "jsnum \<Rightarrow> jsnum \<Rightarrow> jsnum" where
  "Math_max a b = (if a = NaN \<or> b = NaN then NaN else if js_le a b then b else a)"

definition Math_min :: "jsnum \<Rightarrow> jsnum \<Rightarrow> jsnum" where
  "Math_min a b = (if a = NaN \<or> b = NaN then NaN else if js_le a b then a else b)"

definition isNaN :: "jsnum \<Rightarrow> bool" where
  "isNaN x = (x = NaN)"

subsection \<open>Strings\<close>

definition code_unit :: "char \<Rightarrow> nat" where
  "code_unit c = of_char c"

text \<open>
  The upper-case letters below 256: \<open>A\<close> to \<open>Z\<close>, and U+00C0 to U+00DE without the
  multiplication sign U+00D7. The lower-case letter of each is 32 code units above it.
\<close>

definition is_upper :: "char \<Rightarrow> bool" where
  "is_upper c =
     (65 \<le> code_unit c \<and> code_unit c \<le> 90 \<or>
      192 \<le> code_unit c \<and> code_unit c \<le> 222 \<and> code_unit c \<noteq> 215)"

definition lower_char :: "char \<Rightarrow> char" where
  "lower_char c = (if is_upper c then char_of (code_unit c + 32) else c)"

text \<open>\<open>String.prototype.toLowerCase\<close>.\<close>

definition toLowerCase :: "string \<Rightarrow> string" where
  "toLowerCase s = map lower_char s"

text \<open>
  White space and line terminators below 256: tab, line feed, vertical tab, form feed,
  carriage return, space, and the no-break space U+00A0.
\<close>

definition is_space :: "char \<Rightarrow> bool" where
  "is_space c = (code_unit c \<in> {9, 10, 11, 12, 13, 32, 160})"

text \<open>\<open>String.prototype.trim\<close>.\<close>

definition trim :: "string \<Rightarrow> string" where
  "trim s = rev (dropWhile is_space (rev (dropWhile is_space s)))"

fun starts_with :: "string \<Rightarrow> string \<Rightarrow> bool" where
  "starts_with _ [] = True"
| "starts_with [] (_ # _) = False"
| "starts_with (c # s) (d # t) = (c = d \<and> starts_with s t)"

text \<open>\<open>String.prototype.includes\<close>: \<open>sub\<close> occurs in \<open>s\<close> at some position.\<close>

fun includes_str :: "string \<Rightarrow> string \<Rightarrow> bool" where
  "includes_str [] sub = (sub = [])"
| "includes_str (c # s) sub = (starts_with (c # s) sub \<or> includes_str s sub)"

text \<open>\<open>String.prototype.split\<close> with a one-character separator; never the empty list.\<close>

fun split :: "char \<Rightarrow> string \<Rightarrow> string list" where
  "split sep [] = [[]]"
| "split sep (c # s) =
     (if c = sep then [] # split sep s
      else (case split sep s of [] \<Rightarrow> [[c]] | w # ws \<Rightarrow> (c # w) # ws))"

text \<open>\<open>Array.prototype.join\<close>.\<close>

fun join :: "string \<Rightarrow> string list \<Rightarrow> string" where
  "join sep [] = []"
| "join sep [w] = w"
| "join sep (w # ws) = w @ sep @ join sep ws"

text \<open>
  The double nearest to a natural number \<open>n\<close>. Below \<open>2^53 = 9007199254740992\<close> every
  natural number is a double. From there on the doubles are the multiples of a power of
  two, \<open>quantum n\<close>, which leaves 53 significant bits (it doubles each time \<open>n\<close> is halved
  down to below \<open>2^53\<close>); \<open>n\<close> is rounded to the nearest multiple, a tie to the even one,
  and the result is \<open>Infinity\<close> from \<open>2^1024\<close> on.
\<close>

function quantum_from :: "bool \<Rightarrow> int \<Rightarrow> int" where
  "quantum_from True n = 1"
| "quantum_from False n = 2 * quantum_from (n div 2 < 9007199254740992) (n div 2)"
  by pat_completeness auto
termination
proof (relation "measure (\<lambda>(b, n). if b then 0 else Suc (nat n))")
  show "wf (measure (\<lambda>(b, n). if b then 0 else Suc (nat n)))" by simp
next
  fix n :: int
  have "nat (n div 2) < nat n" if "\<not> n div 2 < 9007199254740992"
    using that by linarith
  then show "((n div 2 < 9007199254740992, n div 2), (False, n))
               \<in> measure (\<lambda>(b, n). if b then 0 else Suc (nat n))"
    by auto
qed

definition quantum :: "int \<Rightarrow> int" where
  "quantum n = quantum_from (n < 9007199254740992) n"

definition round_double :: "int \<Rightarrow> jsnum" where
  "round_double n =
     (let q = quantum n;
          lo = (n div q) * q;
          r = n mod q;
          m = (if 2 * r < q then lo
               else if q < 2 * r then lo + q
               else if even (n div q) then lo else lo + q)
      in if 2 ^ 1024 \<le> m then PosInf else Fin (of_int m))"

text \<open>
  \<open>parseInt(s)\<close> without a radix: leading white space is skipped, one sign is read, a
  prefix \<open>0x\<close> or \<open>0X\<close> selects radix 16 (otherwise 10), and the longest run of digits of
  that radix is the value, as a double; with no digit the result is \<open>NaN\<close>. (ECMAScript
  lets an implementation read only the first 20 significant decimal digits; the value
  here is that of all digits, which is what V8 computes.)
\<close>

definition digit_of :: "char \<Rightarrow> nat option" where
  "digit_of c =
     (let n = code_unit c in
      if 48 \<le> n \<and> n \<le> 57 then Some (n - 48)
      else if 97 \<le> n \<and> n \<le> 122 then Some (n - 87)
      else if 65 \<le> n \<and> n \<le> 90 then Some (n - 55)
      else None)"

definition is_digit :: "nat \<Rightarrow> char \<Rightarrow> bool" where
  "is_digit R c = (case digit_of c of None \<Rightarrow> False | Some d \<Rightarrow> d < R)"

definition digits_value :: "nat \<Rightarrow> string \<Rightarrow> int" where
  "digits_value R Z = foldl (\<lambda>acc c. acc * int R + int (the (digit_of c))) 0 Z"

definition parseInt :: "string \<Rightarrow> jsnum" where
  "parseInt inputString =
     (let S = dropWhile is_space inputString;
          sign = (if S \<noteq> [] \<and> hd S = CHR ''-'' then - 1 else (1::int));
          S = (if S \<noteq> [] \<and> (hd S = CHR ''+'' \<or> hd S = CHR ''-'') then tl S else S);
          strip = (starts_with S ''0x'' \<or> starts_with S ''0X'');
          R = (if strip then 16 else 10);
          S = (if strip then drop 2 S else S);
          Z = takeWhile (is_digit R) S
      in if Z = [] then NaN else js_mul (Fin (of_int sign)) (round_double (digits_value R Z)))"

subsection \<open>Arrays\<close>

text \<open>
  \<open>Array.prototype.slice(start, end)\<close>. Each bound is converted to an integer or an
  infinity (\<open>NaN\<close> is 0, a fraction is truncated towards zero), a negative bound counts
  from the end, and both are clamped to the array.
\<close>

fun slice_index :: "nat \<Rightarrow> jsnum \<Rightarrow> nat" where
  "slice_index len NaN = 0"
| "slice_index len NegInf = 0"
| "slice_index len PosInf = len"
| "slice_index len (Fin r) =
     (let i = (if r < 0 then \<lceil>r\<rceil> else \<lfloor>r\<rfloor>)
      in if i < 0 then nat (max (int len + i) 0) else min (nat i) len)"

definition slice :: "'a list \<Rightarrow> jsnum \<Rightarrow> jsnum \<Rightarrow> 'a list" where
  "slice xs start end =
     (let k = slice_index (length xs) start;
          final = slice_index (length xs) end
      in take (final - k) (drop k xs))"

text \<open>
  \<open>Array.prototype.sort(comparefn)\<close>. ECMAScript requires the sort to be stable; for a
  consistent comparator its result is the one stable ordering, which an insertion sort
  computes: an element is placed before the first element it does not compare greater
  than. (For an inconsistent comparator the order is implementation-defined.)
\<close>

fun insert_by :: "('a \<Rightarrow> 'a \<Rightarrow> int) \<Rightarrow> 'a \<Rightarrow> 'a list \<Rightarrow> 'a list" where
  "insert_by cmp x [] = [x]"
| "insert_by cmp x (y # ys) =
     (if cmp x y \<le> 0 then x # y # ys else y # insert_by cmp x ys)"

definition js_sort :: "('a \<Rightarrow> 'a \<Rightarrow> int) \<Rightarrow> 'a list \<Rightarrow> 'a list" where
  "js_sort cmp xs = foldr (insert_by cmp) xs []"

subsection \<open>Data model\<close>

record Patient =
  id' :: int
  patient_name :: string
  age :: int
  email :: string
  contact_number :: string
  medical_issue :: string
  photo_url :: "string option"

record Meta =
  total' :: jsnum
  page :: jsnum
  limit :: jsnum
  totalPages :: jsnum

record ApiResponse =
  data :: "Patient list"
  meta :: Meta

text \<open>
  \<open>URLSearchParams\<close>: the name/value pairs of the query string in order; \<open>get\<close> gives
  the first value of a name, or \<open>null\<close> (here \<open>None\<close>).
\<close>

type_synonym URLSearchParams = "(string \<times> string) list"

definition get :: "URLSearchParams \<Rightarrow> string \<Rightarrow> string option" where
  "get params name = map_of params name"

text \<open>\<open>v || d\<close> for a string or \<open>null\<close>: \<open>null\<close> and the empty string are falsy.\<close>

definition or_default :: "string option \<Rightarrow> string \<Rightarrow> string" where
  "or_default v d = (case v of None \<Rightarrow> d | Some s \<Rightarrow> if s = [] then d else s)"

text \<open>Truthiness of an optional string: \<open>undefined\<close>, \<open>null\<close> and \<open>""\<close> are falsy.\<close>

definition truthy :: "string option \<Rightarrow> bool" where
  "truthy v = (case v of None \<Rightarrow> False | Some s \<Rightarrow> s \<noteq> [])"

subsection \<open>The filter stage\<close>

definition filterPatients :: "Patient list \<Rightarrow> URLSearchParams \<Rightarrow> Patient list" where
  "filterPatients patients params =
     (let filteredPatients = patients;
          search = map_option toLowerCase (get params ''search'');
          filteredPatients =
            (if truthy search
             then filter (\<lambda>patient.
                    includes_str (toLowerCase (patient_name patient)) (the search) \<or>
                    includes_str (toLowerCase (medical_issue patient)) (the search))
                  filteredPatients
             else filteredPatients);
          ageMin = get params ''ageMin'';
          ageMax = get params ''ageMax'';
          filteredPatients =
            (if truthy ageMin
             then (let minAge = parseInt (the ageMin)
                   in if \<not> isNaN minAge
                      then filter (\<lambda>patient. js_le minAge (Fin (of_int (age patient))))
                             filteredPatients
                      else filteredPatients)
             else filteredPatients);
          filteredPatients =
            (if truthy ageMax
             then (let maxAge = parseInt (the ageMax)
                   in if \<not> isNaN maxAge
                      then filter (\<lambda>patient. js_le (Fin (of_int (age patient))) maxAge)
                             filteredPatients
                      else filteredPatients)
             else filteredPatients);
          medicalIssue = get params ''medical_issue'';
          filteredPatients =
            (if truthy medicalIssue
             then (let issues = map (\<lambda>issue. toLowerCase (trim issue))
                                  (split CHR '','' (the medicalIssue))
                   in filter (\<lambda>patient. toLowerCase (medical_issue patient) \<in> set issues)
                        filteredPatients)
             else filteredPatients)
      in filteredPatients)"

subsection \<open>The sort stage\<close>

text \<open>
  The comparator of \<open>sortPatients\<close>; \<open>lc\<close> is \<open>String.prototype.localeCompare\<close>, called
  on the two names as they are stored and with no options.
\<close>

definition compare_patients ::
  "(string \<Rightarrow> string \<Rightarrow> int) \<Rightarrow> string \<Rightarrow> string option \<Rightarrow> Patient \<Rightarrow> Patient \<Rightarrow> int" where
  "compare_patients lc sortBy sortOrder a b =
     (if sortBy = ''age''
      then (let compareValue = age a - age b
            in if sortOrder = Some ''desc'' then - compareValue else compareValue)
      else if sortBy = ''patient_name''
      then (let compareValue = lc (patient_name a) (patient_name b)
            in if sortOrder = Some ''desc'' then - compareValue else compareValue)
      else 0)"

definition sortPatients ::
  "(string \<Rightarrow> string \<Rightarrow> int) \<Rightarrow> Patient list \<Rightarrow> string option \<Rightarrow> string option
     \<Rightarrow> Patient list" where
  "sortPatients lc patients sortBy sortOrder =
     (if \<not> truthy sortBy then patients
      else js_sort (compare_patients lc (the sortBy) sortOrder) patients)"

subsection \<open>The paginate stage\<close>

definition paginateResults :: "Patient list \<Rightarrow> jsnum \<Rightarrow> jsnum \<Rightarrow> ApiResponse" where
  "paginateResults patients pg lmt =
     (let total = Fin (of_nat (length patients));
          totalPages = Math_ceil (js_div total lmt);
          offset = js_mul (js_sub pg (Fin 1)) lmt;
          paginatedPatients = slice patients offset (js_add offset lmt)
      in \<lparr>data = paginatedPatients,
          meta = \<lparr>total' = total, page = pg, limit = lmt, totalPages = totalPages\<rparr>\<rparr>)"

subsection \<open>The handler\<close>

text \<open>
  \<open>loadPatientsData\<close> reads and parses \<open>data/patients.json\<close>; the parameter is the parsed
  file, or \<open>None\<close> when reading or parsing throws. Any failure is rethrown as the error
  \<open>Failed to load patients data\<close>.
\<close>

definition loadPatientsData :: "Patient list option \<Rightarrow> string + Patient list" where
  "loadPatientsData file =
     (case file of None \<Rightarrow> Inl ''Failed to load patients data'' | Some ps \<Rightarrow> Inr ps)"

datatype Body = ErrorBody string "string option" | Payload ApiResponse

record Response =
  status :: nat
  body :: Body

definition validSortFields :: "string list" where
  "validSortFields = [''age'', ''patient_name'']"

definition validSortOrders :: "string list" where
  "validSortOrders = [''asc'', ''desc'']"

definition GET ::
  "(string \<Rightarrow> string \<Rightarrow> int) \<Rightarrow> Patient list option \<Rightarrow> URLSearchParams \<Rightarrow> Response" where
  "GET lc file searchParams =
     (let pg = Math_max (Fin 1) (parseInt (or_default (get searchParams ''page'') ''1''));
          lmt = Math_min (Fin 100)
                  (Math_max (Fin 1) (parseInt (or_default (get searchParams ''limit'') ''20'')));
          sortBy = or_default (get searchParams ''sortBy'') [];
          sortOrder = or_default (get searchParams ''sortOrder'') ''asc''
      in if sortBy \<noteq> [] \<and> sortBy \<notin> set validSortFields
         then \<lparr>status = 400,
               body = ErrorBody (''Invalid sortBy field. Must be one of: ''
                                   @ join '', '' validSortFields) None\<rparr>
         else if sortOrder \<noteq> [] \<and> sortOrder \<notin> set validSortOrders
         then \<lparr>status = 400,
               body = ErrorBody (''Invalid sortOrder. Must be one of: ''
                                   @ join '', '' validSortOrders) None\<rparr>
         else (case loadPatientsData file of
                 Inl message \<Rightarrow>
                   \<lparr>status = 500, body = ErrorBody ''Internal server error'' (Some message)\<rparr>
               | Inr allPatients \<Rightarrow>
                   (let filteredPatients = filterPatients allPatients searchParams;
                        sortedPatients = sortPatients lc filteredPatients (Some sortBy)
                                           (Some sortOrder);
                        result = paginateResults sortedPatients pg lmt
                    in \<lparr>status = 200, body = Payload result\<rparr>)))"

subsection \<open>A collation for \<open>localeCompare\<close>\<close>

text \<open>
  Without options \<open>localeCompare\<close> compares with sensitivity \<open>variant\<close>: letters that
  differ only in case are different. On strings of ASCII letters the default (root)
  collation orders by the letters with case ignored, a proper prefix first, and orders
  strings that differ only in case at their first difference, lower case first.
  \<open>localeCompare_ascii\<close> is that order; it stands for \<open>localeCompare\<close> wherever a
  concrete collation is needed.
\<close>

fun lex_compare :: "nat list \<Rightarrow> nat list \<Rightarrow> int" where
  "lex_compare [] [] = 0"
| "lex_compare [] (_ # _) = - 1"
| "lex_compare (_ # _) [] = 1"
| "lex_compare (x # xs) (y # ys) =
     (if x < y then - 1 else if y < x then 1 else lex_compare xs ys)"

definition localeCompare_ascii :: "string \<Rightarrow> string \<Rightarrow> int" where
  "localeCompare_ascii a b =
     (let primary = lex_compare (map code_unit (toLowerCase a)) (map code_unit (toLowerCase b))
      in if primary \<noteq> 0 then primary
         else lex_compare (map (\<lambda>c. if is_upper c then 1 else 0) a)
                          (map (\<lambda>c. if is_upper c then 1 else 0) b))"

text \<open>
  \<open>localeCompare(b, undefined, { sensitivity: 'base' })\<close>, the comparison with which the
  client (\<open>src/app/page.tsx\<close>) sorts names: on strings of ASCII letters, the order by the
  letters with case ignored, so that strings that differ only in case compare equal.
\<close>

definition localeCompare_base :: "string \<Rightarrow> string \<Rightarrow> int" where
  "localeCompare_base a b =
     lex_compare (map code_unit (toLowerCase a)) (map code_unit (toLowerCase b))"

subsection \<open>The predicates of the filter stage\<close>

text \<open>
  Each step of \<open>filterPatients\<close> keeps the records that satisfy one predicate, which
  depends on the parameters only; the four predicates are named here
  (\<open>filterPatients_eq\<close> below relates them to the function).
\<close>

definition matches_search :: "URLSearchParams \<Rightarrow> Patient \<Rightarrow> bool" where
  "matches_search params p =
     (case get params ''search'' of
        None \<Rightarrow> True
      | Some s \<Rightarrow> s = [] \<or> includes_str (toLowerCase (patient_name p)) (toLowerCase s)
                  \<or> includes_str (toLowerCase (medical_issue p)) (toLowerCase s))"

definition passes_ageMin :: "URLSearchParams \<Rightarrow> Patient \<Rightarrow> bool" where
  "passes_ageMin params p =
     (case get params ''ageMin'' of
        None \<Rightarrow> True
      | Some s \<Rightarrow> s = [] \<or> isNaN (parseInt s) \<or> js_le (parseInt s) (Fin (of_int (age p))))"

definition passes_ageMax :: "URLSearchParams \<Rightarrow> Patient \<Rightarrow> bool" where
  "passes_ageMax params p =
     (case get params ''ageMax'' of
        None \<Rightarrow> True
      | Some s \<Rightarrow> s = [] \<or> isNaN (parseInt s) \<or> js_le (Fin (of_int (age p))) (parseInt s))"

definition matches_issue :: "URLSearchParams \<Rightarrow> Patient \<Rightarrow> bool" where
  "matches_issue params p =
     (case get params ''medical_issue'' of
        None \<Rightarrow> True
      | Some s \<Rightarrow> s = [] \<or> toLowerCase (medical_issue p)
                    \<in> set (map (\<lambda>issue. toLowerCase (trim issue)) (split CHR '','' s)))"

text \<open>\<open>URLSearchParams.delete\<close>: the parameters without the pairs of one name.\<close>

definition delete :: "string \<Rightarrow> URLSearchParams \<Rightarrow> URLSearchParams" where
  "delete name params = filter (\<lambda>(k, v). k \<noteq> name) params"

subsection \<open>Example data\<close>

definition patient :: "int \<Rightarrow> string \<Rightarrow> int \<Rightarrow> string \<Rightarrow> Patient" where
  "patient i n a m =
     \<lparr>id' = i, patient_name = n, age = a, email = [], contact_number = [],
      medical_issue = m, photo_url = None\<rparr>"

text \<open>Four patients with the ages 30, 25, 30, 40, in this order.\<close>

definition ages_example :: "Patient list" where
  "ages_example = [patient 1 ''Ann'' 30 ''fever'', patient 2 ''Bob'' 25 ''rash'',
                   patient 3 ''Cy'' 30 ''fever'', patient 4 ''Di'' 40 ''rash'']"

text \<open>Two names that differ only in case, and a third.\<close>

definition names_example :: "Patient list" where
  "names_example = [patient 1 ''Alice'' 30 ''fever'', patient 2 ''alice'' 41 ''rash'',
                    patient 3 ''Bob'' 25 ''fever'']"

section \<open>Properties\<close>

subsection \<open>The sort of \<open>Array.prototype.sort\<close>\<close>

lemma mset_insert_by: "mset (insert_by cmp x ys) = add_mset x (mset ys)"
  by (induction ys) auto

lemma mset_js_sort: "mset (js_sort cmp xs) = mset xs"
  unfolding js_sort_def by (induction xs) (auto simp: mset_insert_by)

lemma set_insert_by: "set (insert_by cmp x ys) = insert x (set ys)"
  by (induction ys) auto




lemma sorted_insert_by:
  assumes tot: "\<And>x y. cmp x y \<le> 0 \<or> cmp y x \<le> 0"
    and trans: "\<And>x y z. cmp x y \<le> 0 \<Longrightarrow> cmp y z \<le> 0 \<Longrightarrow> cmp x z \<le> 0"
  shows "sorted_wrt (\<lambda>a b. cmp a b \<le> 0) ys \<Longrightarrow>
         sorted_wrt (\<lambda>a b. cmp a b \<le> 0) (insert_by cmp x ys)"
proof (induction ys)
  case Nil
  show ?case by simp
next
  case (Cons y ys)
  show ?case
  proof (cases "cmp x y \<le> 0")
    case True
    with Cons.prems show ?thesis by (auto intro: trans)
  next
    case False
    then have "cmp y x \<le> 0" using tot[of x y] by simp
    with False Cons show ?thesis by (auto simp: set_insert_by)
  qed
qed

lemma sorted_js_sort:
  assumes tot: "\<And>x y. cmp x y \<le> 0 \<or> cmp y x \<le> 0"
    and trans: "\<And>x y z. cmp x y \<le> 0 \<Longrightarrow> cmp y z \<le> 0 \<Longrightarrow> cmp x z \<le> 0"
  shows "sorted_wrt (\<lambda>a b. cmp a b \<le> 0) (js_sort cmp xs)"
  unfolding js_sort_def
  by (induction xs) (auto intro: sorted_insert_by[OF tot trans])



subsection \<open>The sort stage\<close>


lemma sortPatients_name:
  "sortPatients lc ps (Some ''patient_name'') ord =
     js_sort (\<lambda>a b. if ord = Some ''desc'' then - lc (patient_name a) (patient_name b)
                     else lc (patient_name a) (patient_name b)) ps"
proof -
  have "compare_patients lc ''patient_name'' ord =
          (\<lambda>a b. if ord = Some ''desc'' then - lc (patient_name a) (patient_name b)
                 else lc (patient_name a) (patient_name b))"
    by (intro ext) (simp add: compare_patients_def)
  then show ?thesis by (simp add: sortPatients_def truthy_def)
qed








subsection \<open>The paginate stage\<close>

lemma slice_Fin:
  assumes "0 \<le> a" and "a \<le> b"
  shows "slice xs (Fin (of_int a)) (Fin (of_int b)) = take (nat (b - a)) (drop (nat a) xs)"
proof (cases "length xs \<le> nat a")
  case True
  then show ?thesis using assms by (simp add: slice_def Let_def)
next
  case False
  then have k: "min (nat a) (length xs) = nat a" by simp
  show ?thesis
  proof (cases "length xs \<le> nat b")
    case True
    then have "length (drop (nat a) xs) \<le> nat (b - a)" using assms by simp
    then have "take (nat (b - a)) (drop (nat a) xs) = drop (nat a) xs" by simp
    with True assms k show ?thesis by (simp add: slice_def Let_def)
  next
    case False
    then have "min (nat b) (length xs) - nat a = nat (b - a)" using assms by simp
    moreover have "nat b - nat a = nat (b - a)" using assms by simp
    ultimately show ?thesis using assms k by (simp add: slice_def Let_def)
  qed
qed

text \<open>
  On a page number \<open>p \<ge> 1\<close> and a limit \<open>l \<ge> 1\<close>, \<open>paginateResults\<close> takes \<open>l\<close> records after
  the first \<open>(p - 1) * l\<close>.
\<close>

lemma paginateResults_Fin:
  assumes "1 \<le> p" and "1 \<le> l"
  shows "paginateResults ps (Fin (of_int p)) (Fin (of_int l)) =
     \<lparr>data = take (nat l) (drop (nat ((p - 1) * l)) ps),
      meta = \<lparr>total' = Fin (of_nat (length ps)), page = Fin (of_int p),
              limit = Fin (of_int l),
              totalPages = Fin (of_int \<lceil>of_nat (length ps) / of_int l :: rat\<rceil>)\<rparr>\<rparr>"
proof -
  have off: "js_mul (js_sub (Fin (of_int p)) (Fin 1)) (Fin (of_int l)) =
             Fin (of_int ((p - 1) * l))"
    by (simp add: js_sub_def)
  have fin: "js_add (Fin (of_int ((p - 1) * l))) (Fin (of_int l)) =
             Fin (of_int ((p - 1) * l + l))"
    by simp
  have "0 \<le> (p - 1) * l" using assms by simp
  moreover have "(p - 1) * l \<le> (p - 1) * l + l" using assms by simp
  ultimately have "slice ps (Fin (of_int ((p - 1) * l))) (Fin (of_int ((p - 1) * l + l))) =
                   take (nat l) (drop (nat ((p - 1) * l)) ps)"
    using slice_Fin[of "(p - 1) * l" "(p - 1) * l + l" ps] by simp
  moreover have "of_int l \<noteq> (0::rat)" using assms by simp
  ultimately show ?thesis
    unfolding paginateResults_def Let_def off fin by simp
qed

lemma totalPages_Fin:
  assumes "1 \<le> l"
  shows "totalPages (meta (paginateResults ps pg (Fin (of_int l)))) =
         Fin (of_int \<lceil>of_nat (length ps) / of_int l :: rat\<rceil>)"
proof -
  have "of_int l \<noteq> (0::rat)" using assms by simp
  then show ?thesis by (simp add: paginateResults_def Let_def)
qed

lemma ceiling_rat_real:
  "\<lceil>of_nat n / of_int l :: rat\<rceil> = \<lceil>real n / real_of_int l\<rceil>"
proof -
  have "\<lceil>of_int (int n) / of_int l :: rat\<rceil> = \<lceil>of_int (int n) / of_int l :: real\<rceil>"
    unfolding ceiling_divide_eq_div ..
  then show ?thesis by simp
qed

lemma ceiling_div_nat:
  assumes m: "0 < m"
  shows "\<lceil>of_nat n / of_nat m :: rat\<rceil> = int ((n + m - 1) div m)"
proof -
  define q where "q = (n + m - 1) div m"
  have up: "n \<le> q * m"
  proof -
    have "n + m - 1 < (q + 1) * m"
      unfolding q_def using m
      by (metis Suc_eq_plus1 dividend_less_div_times mult.commute add.commute mult_Suc)
    then show ?thesis using m by simp
  qed
  have lo: "q * m < n + m"
  proof -
    have "q * m \<le> n + m - 1" unfolding q_def by simp
    then show ?thesis using m by linarith
  qed
  have "(of_nat n :: rat) \<le> of_nat q * of_nat m"
    using up by (metis of_nat_le_iff of_nat_mult)
  then have a: "of_nat n / of_nat m \<le> (of_nat q :: rat)"
    using m by (simp add: pos_divide_le_eq)
  have "(of_nat (q * m) :: rat) < of_nat (n + m)"
    using lo by (metis of_nat_less_iff)
  then have "(of_nat q - 1) * of_nat m < (of_nat n :: rat)"
    by (simp add: algebra_simps)
  then have b: "of_nat q - 1 < (of_nat n / of_nat m :: rat)"
    using m by (simp add: pos_less_divide_eq)
  have "\<lceil>of_nat n / of_nat m :: rat\<rceil> = int q"
    using a b by (intro ceiling_unique) simp_all
  then show ?thesis by (simp only: q_def)
qed



text \<open>
  Claim C4. For a limit in \<open>[1, 100]\<close> (and any page), the metadata has
  \<open>totalPages = ceil(total / limit)\<close>, the ceiling of the real quotient, which is
  \<open>(total + limit - 1) div limit\<close>; and \<open>totalPages\<close> is 0 exactly when \<open>total\<close> is 0.
\<close>

theorem paginateResults_totalPages_ceiling:
  assumes "1 \<le> l" and "l \<le> 100"
  shows "total' (meta (paginateResults ps pg (Fin (of_int l)))) = Fin (of_nat (length ps))
       \<and> totalPages (meta (paginateResults ps pg (Fin (of_int l)))) =
           Fin (of_int \<lceil>real (length ps) / real_of_int l\<rceil>)
       \<and> totalPages (meta (paginateResults ps pg (Fin (of_int l)))) =
           Fin (of_nat ((length ps + nat l - 1) div nat l))
       \<and> (totalPages (meta (paginateResults ps pg (Fin (of_int l)))) = Fin 0 \<longleftrightarrow>
          total' (meta (paginateResults ps pg (Fin (of_int l)))) = Fin 0)"
proof -
  let ?tp = "totalPages (meta (paginateResults ps pg (Fin (of_int l))))"
  have tp: "?tp = Fin (of_int \<lceil>of_nat (length ps) / of_int l :: rat\<rceil>)"
    using assms by (simp add: totalPages_Fin)
  have l: "0 < nat l" and l': "of_int l = (of_nat (nat l) :: rat)"
    using assms by simp_all
  have nat: "\<lceil>of_nat (length ps) / of_int l :: rat\<rceil> = int ((length ps + nat l - 1) div nat l)"
    unfolding l' by (rule ceiling_div_nat[OF l])
  have zero: "(length ps + nat l - 1) div nat l = 0 \<longleftrightarrow> length ps = 0"
  proof -
    have "length ps + nat l - 1 < nat l \<longleftrightarrow> length ps = 0" using l by linarith
    then show ?thesis using l by (simp add: div_eq_0_iff)
  qed
  have c1: "total' (meta (paginateResults ps pg (Fin (of_int l)))) = Fin (of_nat (length ps))"
    by (simp add: paginateResults_def Let_def)
  have c2: "?tp = Fin (of_int \<lceil>real (length ps) / real_of_int l\<rceil>)"
    using tp by (simp add: ceiling_rat_real)
  have c3: "?tp = Fin (of_nat ((length ps + nat l - 1) div nat l))"
    using tp nat by simp
  have "?tp = Fin 0 \<longleftrightarrow> length ps = 0"
    unfolding c3 using zero by simp
  moreover have "total' (meta (paginateResults ps pg (Fin (of_int l)))) = Fin 0 \<longleftrightarrow> length ps = 0"
    unfolding c1 by simp
  ultimately have c4: "?tp = Fin 0 \<longleftrightarrow>
      total' (meta (paginateResults ps pg (Fin (of_int l)))) = Fin 0"
    by blast
  from c1 c2 c3 c4 show ?thesis by blast
qed

theorem paginateResults_totalPages_ceiling_witness:
  "(1::int) \<le> 10 \<and> (10::int) \<le> 100
   \<and> totalPages (meta (paginateResults (replicate 25 (patient 1 ''Ann'' 30 ''fever''))
        (Fin 1) (Fin (of_int 10)))) = Fin 3"
proof -
  have "\<lceil>real (length (replicate 25 (patient 1 ''Ann'' 30 ''fever''))) / real_of_int 10\<rceil> = 3"
    by simp
  then show ?thesis
    using paginateResults_totalPages_ceiling[of 10 "replicate 25 (patient 1 ''Ann'' 30 ''fever'')" "Fin 1"]
    by simp
qed



subsection \<open>The page and limit parameters\<close>

lemma round_double_cases:
  "round_double n = PosInf \<or> (\<exists>i. round_double n = Fin (of_int i))"
proof -
  have "(if c then PosInf else Fin (of_int m)) = PosInf \<or>
        (\<exists>i. (if c then PosInf else Fin (of_int m)) = Fin (of_int i))" for c m
    by (cases c) auto
  then show ?thesis unfolding round_double_def Let_def by blast
qed

lemma signed_round_double_cases:
  "js_mul (Fin (of_int (if b then - 1 else 1))) (round_double d) = PosInf \<or>
   js_mul (Fin (of_int (if b then - 1 else 1))) (round_double d) = NegInf \<or>
   (\<exists>i. js_mul (Fin (of_int (if b then - 1 else 1))) (round_double d) = Fin (of_int i))"
proof (cases "round_double d = PosInf")
  case True
  then show ?thesis by (cases b) simp_all
next
  case False
  then obtain i where "round_double d = Fin (of_int i)"
    using round_double_cases[of d] by blast
  then have "js_mul (Fin (of_int (if b then - 1 else 1))) (round_double d) =
             Fin (of_int ((if b then - 1 else 1) * i))"
    by simp
  then show ?thesis by blast
qed

text \<open>\<open>parseInt\<close> gives \<open>NaN\<close>, an infinity or an integer.\<close>

lemma parseInt_cases:
  "parseInt s = NaN \<or> parseInt s = PosInf \<or> parseInt s = NegInf \<or>
   (\<exists>i. parseInt s = Fin (of_int i))"
proof -
  have "(if c then NaN else js_mul (Fin (of_int (if b then - 1 else 1))) (round_double d)) = NaN \<or>
        (if c then NaN else js_mul (Fin (of_int (if b then - 1 else 1))) (round_double d)) = PosInf \<or>
        (if c then NaN else js_mul (Fin (of_int (if b then - 1 else 1))) (round_double d)) = NegInf \<or>
        (\<exists>i. (if c then NaN else js_mul (Fin (of_int (if b then - 1 else 1))) (round_double d))
              = Fin (of_int i))" for c b d
    using signed_round_double_cases[of b d] by (cases c) simp_all
  then show ?thesis unfolding parseInt_def Let_def by blast
qed

text \<open>A string with no decimal digit in it is not a number for \<open>parseInt\<close>.\<close>

lemma parseInt_no_digit:
  assumes "\<forall>c\<in>set s. \<not> is_digit 10 c"
  shows "parseInt s = NaN"
proof -
  define S where "S = dropWhile is_space s"
  define T where "T = (if S \<noteq> [] \<and> (hd S = CHR ''+'' \<or> hd S = CHR ''-'') then tl S else S)"
  have "set S \<subseteq> set s" unfolding S_def by (auto dest: set_dropWhileD)
  moreover have "set T \<subseteq> set S" unfolding T_def by (auto dest: list.set_sel(2))
  ultimately have T: "\<forall>c\<in>set T. \<not> is_digit 10 c" using assms by blast
  have zero: "is_digit 10 CHR ''0''" by (simp add: is_digit_def digit_of_def code_unit_def)
  have nostrip: "\<not> starts_with T ''0x''" "\<not> starts_with T ''0X''"
    using T zero by (cases T; auto)+
  have "takeWhile (is_digit 10) T = []"
    using T by (cases T) auto
  then show ?thesis
    unfolding parseInt_def Let_def S_def[symmetric] T_def[symmetric]
    using nostrip by simp
qed

lemma Math_max_Fin: "Math_max (Fin (of_int a)) (Fin (of_int b)) = Fin (of_int (max a b))"
  by (simp add: Math_max_def max_def)

lemma Math_min_Fin: "Math_min (Fin (of_int a)) (Fin (of_int b)) = Fin (of_int (min a b))"
  by (simp add: Math_min_def min_def)

text \<open>
  The page used by the handler is \<open>NaN\<close>, \<open>Infinity\<close> or an integer that is at least 1,
  and the limit is \<open>NaN\<close> or an integer from 1 to 100; \<open>NaN\<close> is what \<open>parseInt\<close> gives on
  a string that does not start with a number, and \<open>Math.max\<close> and \<open>Math.min\<close> hand it on.
\<close>

lemma page_clamp_cases:
  "Math_max (Fin 1) (parseInt s) = NaN \<or> Math_max (Fin 1) (parseInt s) = PosInf \<or>
   (\<exists>j. 1 \<le> j \<and> Math_max (Fin 1) (parseInt s) = Fin (of_int j))"
proof -
  have one: "Fin 1 = Fin (of_int 1)" by simp
  consider "parseInt s = NaN" | "parseInt s = PosInf" | "parseInt s = NegInf"
    | i where "parseInt s = Fin (of_int i)"
    using parseInt_cases[of s] by blast
  then show ?thesis
  proof cases
    case 1
    then show ?thesis by (simp add: Math_max_def)
  next
    case 2
    then show ?thesis by (simp add: Math_max_def)
  next
    case 3
    then have "Math_max (Fin 1) (parseInt s) = Fin (of_int 1)" by (simp add: Math_max_def)
    then show ?thesis by blast
  next
    case 4
    then have "Math_max (Fin 1) (parseInt s) = Fin (of_int (max 1 i))"
      unfolding one by (simp only: Math_max_Fin)
    moreover have "1 \<le> max 1 i" by simp
    ultimately show ?thesis by blast
  qed
qed

lemma limit_clamp_cases:
  "Math_min (Fin 100) (Math_max (Fin 1) (parseInt s)) = NaN \<or>
   (\<exists>q. 1 \<le> q \<and> q \<le> 100 \<and>
        Math_min (Fin 100) (Math_max (Fin 1) (parseInt s)) = Fin (of_int q))"
proof -
  have hundred: "Fin 100 = Fin (of_int 100)" by simp
  consider "Math_max (Fin 1) (parseInt s) = NaN" | "Math_max (Fin 1) (parseInt s) = PosInf"
    | j where "1 \<le> j" "Math_max (Fin 1) (parseInt s) = Fin (of_int j)"
    using page_clamp_cases[of s] by blast
  then show ?thesis
  proof cases
    case 1
    then show ?thesis by (simp add: Math_min_def)
  next
    case 2
    then have "Math_min (Fin 100) (Math_max (Fin 1) (parseInt s)) = Fin (of_int 100)"
      by (simp add: Math_min_def)
    then show ?thesis by (intro disjI2 exI[of _ 100]) simp
  next
    case 3
    then have "Math_min (Fin 100) (Math_max (Fin 1) (parseInt s)) = Fin (of_int (min 100 j))"
      unfolding hundred by (simp only: Math_min_Fin)
    moreover have "1 \<le> min 100 j" "min 100 j \<le> 100" using 3(1) by simp_all
    ultimately show ?thesis by blast
  qed
qed

lemma js_mul_NaN_right: "js_mul x NaN = NaN"
  by (cases x) simp_all

lemma paginateResults_NaN_page: "data (paginateResults ps NaN lm) = []"
  by (simp add: paginateResults_def Let_def js_sub_def slice_def)

lemma paginateResults_NaN_limit: "data (paginateResults ps pg NaN) = []"
  by (simp add: paginateResults_def Let_def js_mul_NaN_right slice_def)

lemma paginateResults_PosInf_page:
  assumes "1 \<le> l"
  shows "data (paginateResults ps PosInf (Fin (of_int l))) = []"
proof -
  have "js_mul (js_sub PosInf (Fin 1)) (Fin (of_int l)) = PosInf"
    using assms by (simp add: js_sub_def)
  then show ?thesis by (simp add: paginateResults_def Let_def slice_def)
qed

lemma GET_payload:
  assumes "GET lc file params = \<lparr>status = 200, body = Payload r\<rparr>"
  shows "\<exists>xs. r = paginateResults xs
           (Math_max (Fin 1) (parseInt (or_default (get params ''page'') ''1'')))
           (Math_min (Fin 100)
              (Math_max (Fin 1) (parseInt (or_default (get params ''limit'') ''20''))))"
  using assms by (auto simp: GET_def Let_def split: if_splits sum.splits)

lemma length_page_le:
  assumes "1 \<le> p" and "1 \<le> l"
  shows "int (length (data (paginateResults ps (Fin (of_int p)) (Fin (of_int l))))) \<le> l"
  using assms by (simp add: paginateResults_Fin)

text \<open>
  Claim C10. For a page \<open>p \<ge> 1\<close> and a limit \<open>l\<close> in \<open>[1, 100]\<close> the data of
  \<open>paginateResults\<close> has at most \<open>l\<close> records. A response of the handler with status 200
  reports a limit that is an integer \<open>q\<close> in \<open>[1, 100]\<close> and carries at most \<open>q\<close> records, or
  reports the limit \<open>NaN\<close> and carries none; in both cases at most 100.
\<close>

theorem page_has_at_most_limit_records:
  "(1 \<le> p \<and> 1 \<le> l \<and> l \<le> 100 \<longrightarrow>
      int (length (data (paginateResults ps (Fin (of_int p)) (Fin (of_int l))))) \<le> l)
   \<and> (GET lc file params = \<lparr>status = 200, body = Payload r\<rparr> \<longrightarrow>
        length (data r) \<le> 100 \<and>
        (limit (meta r) = NaN \<and> data r = [] \<or>
         (\<exists>q. limit (meta r) = Fin (of_int q) \<and> 1 \<le> q \<and> q \<le> 100 \<and>
              int (length (data r)) \<le> q)))"
proof (rule conjI; rule impI)
  assume "1 \<le> p \<and> 1 \<le> l \<and> l \<le> 100"
  then show "int (length (data (paginateResults ps (Fin (of_int p)) (Fin (of_int l))))) \<le> l"
    by (simp add: length_page_le)
next
  assume ok: "GET lc file params = \<lparr>status = 200, body = Payload r\<rparr>"
  define pg where "pg = Math_max (Fin 1) (parseInt (or_default (get params ''page'') ''1''))"
  define lm where "lm = Math_min (Fin 100)
      (Math_max (Fin 1) (parseInt (or_default (get params ''limit'') ''20'')))"
  from GET_payload[OF ok] obtain xs where r: "r = paginateResults xs pg lm"
    unfolding pg_def lm_def by blast
  have lim: "limit (meta r) = lm" by (simp add: r paginateResults_def Let_def)
  have cases: "limit (meta r) = NaN \<and> data r = [] \<or>
         (\<exists>q. limit (meta r) = Fin (of_int q) \<and> 1 \<le> q \<and> q \<le> 100 \<and>
              int (length (data r)) \<le> q)"
  proof (cases "lm = NaN")
    case True
    then show ?thesis using lim by (simp add: r paginateResults_NaN_limit)
  next
    case False
    then obtain q where q: "1 \<le> q" "q \<le> 100" and lm: "lm = Fin (of_int q)"
      using limit_clamp_cases[of "or_default (get params ''limit'') ''20''"]
      unfolding lm_def by auto
    consider "pg = NaN" | "pg = PosInf" | j where "1 \<le> j" "pg = Fin (of_int j)"
      using page_clamp_cases[of "or_default (get params ''page'') ''1''"]
      unfolding pg_def by blast
    then have "int (length (data r)) \<le> q"
    proof cases
      case 1
      then show ?thesis using q by (simp add: r paginateResults_NaN_page)
    next
      case 2
      then show ?thesis using q by (simp add: r lm paginateResults_PosInf_page)
    next
      case 3
      show ?thesis unfolding r 3(2) lm by (rule length_page_le) (use 3(1) q in simp_all)
    qed
    then show ?thesis using lim lm q by auto
  qed
  then have "length (data r) \<le> 100" by auto
  with cases show "length (data r) \<le> 100 \<and>
        (limit (meta r) = NaN \<and> data r = [] \<or>
         (\<exists>q. limit (meta r) = Fin (of_int q) \<and> 1 \<le> q \<and> q \<le> 100 \<and>
              int (length (data r)) \<le> q))"
    by simp
qed

theorem page_has_at_most_limit_records_witness:
  "((1::int) \<le> 2 \<and> (1::int) \<le> 3 \<and> (3::int) \<le> 100)
   \<and> int (length (data (paginateResults ages_example (Fin (of_int 2)) (Fin (of_int 3))))) \<le> 3
   \<and> GET localeCompare_ascii (Some ages_example) [(''limit'', ''3'')] =
       \<lparr>status = 200,
        body = Payload \<lparr>data = take 3 ages_example,
                 meta = \<lparr>total' = Fin 4, page = Fin 1, limit = Fin 3, totalPages = Fin 2\<rparr>\<rparr>\<rparr>
   \<and> length (data \<lparr>data = take 3 ages_example,
                 meta = \<lparr>total' = Fin 4, page = Fin 1, limit = Fin 3, totalPages = Fin 2\<rparr>\<rparr>)
       \<le> 100"
proof -
  have g: "GET localeCompare_ascii (Some ages_example) [(''limit'', ''3'')] =
       \<lparr>status = 200,
        body = Payload \<lparr>data = take 3 ages_example,
                 meta = \<lparr>total' = Fin 4, page = Fin 1, limit = Fin 3, totalPages = Fin 2\<rparr>\<rparr>\<rparr>"
    by code_simp
  have h: "(1::int) \<le> 2 \<and> (1::int) \<le> 3 \<and> (3::int) \<le> 100" by simp
  from page_has_at_most_limit_records[of 2 3 ages_example localeCompare_ascii
      "Some ages_example" "[(''limit'', ''3'')]"
      "\<lparr>data = take 3 ages_example,
        meta = \<lparr>total' = Fin 4, page = Fin 1, limit = Fin 3, totalPages = Fin 2\<rparr>\<rparr>"] g h
  show ?thesis by blast
qed

text \<open>
  Claim C3 (fails on the code). A \<open>page\<close> or \<open>limit\<close> that does not start with a number is
  not clamped: \<open>parseInt\<close> gives \<open>NaN\<close>, which \<open>Math.max\<close> and \<open>Math.min\<close> return, so the
  pipeline runs with the page and the limit \<open>NaN\<close>; the response has status 200, no data,
  and \<open>NaN\<close> as its page, limit and \<open>totalPages\<close>. (\<open>filterPatients\<close> guards its own
  \<open>parseInt\<close> results with \<open>isNaN\<close>; the handler does not.)
\<close>

theorem GET_nonnumeric_page_limit_not_clamped:
  "GET localeCompare_ascii (Some ages_example) [(''page'', ''abc''), (''limit'', ''ten'')] =
     \<lparr>status = 200,
      body = Payload \<lparr>data = [],
               meta = \<lparr>total' = Fin 4, page = NaN, limit = NaN, totalPages = NaN\<rparr>\<rparr>\<rparr>"
  by code_simp

subsection \<open>A request that passes validation\<close>

lemma length_sortPatients: "length (sortPatients lc ps sortBy sortOrder) = length ps"
proof -
  have "mset (sortPatients lc ps sortBy sortOrder) = mset ps"
    by (simp add: sortPatients_def mset_js_sort)
  then show ?thesis by (rule mset_eq_length)
qed

text \<open>
  With acceptable sort parameters and a data file that loads, the handler answers 200
  with the page of the filtered and sorted collection.
\<close>

lemma GET_success:
  assumes "get params ''sortBy'' \<in> {None, Some [], Some ''age'', Some ''patient_name''}"
    and "get params ''sortOrder'' \<in> {None, Some [], Some ''asc'', Some ''desc''}"
  shows "GET lc (Some allPatients) params =
     \<lparr>status = 200,
      body = Payload (paginateResults
        (sortPatients lc (filterPatients allPatients params)
           (Some (or_default (get params ''sortBy'') []))
           (Some (or_default (get params ''sortOrder'') ''asc'')))
        (Math_max (Fin 1) (parseInt (or_default (get params ''page'') ''1'')))
        (Math_min (Fin 100)
           (Math_max (Fin 1) (parseInt (or_default (get params ''limit'') ''20'')))))\<rparr>"
proof -
  have sb: "\<not> (or_default (get params ''sortBy'') [] \<noteq> [] \<and>
               or_default (get params ''sortBy'') [] \<notin> set validSortFields)"
    using assms(1) by (auto simp: or_default_def validSortFields_def)
  have so: "\<not> (or_default (get params ''sortOrder'') ''asc'' \<noteq> [] \<and>
               or_default (get params ''sortOrder'') ''asc'' \<notin> set validSortOrders)"
    using assms(2) by (auto simp: or_default_def validSortOrders_def)
  show ?thesis
    unfolding GET_def Let_def using sb so by (simp add: loadPatientsData_def)
qed

lemma page_beyond_last:
  assumes "1 \<le> l" and "\<lceil>real (length ps) / real_of_int l\<rceil> < p"
  shows "paginateResults ps (Fin (of_int p)) (Fin (of_int l)) =
           \<lparr>data = [],
            meta = \<lparr>total' = Fin (of_nat (length ps)), page = Fin (of_int p),
                    limit = Fin (of_int l),
                    totalPages = Fin (of_int \<lceil>real (length ps) / real_of_int l\<rceil>)\<rparr>\<rparr>"
proof -
  have "0 \<le> real (length ps) / real_of_int l" using assms(1) by simp
  then have "0 \<le> \<lceil>real (length ps) / real_of_int l\<rceil>" by linarith
  with assms have p: "1 \<le> p" by linarith
  have "\<lceil>real (length ps) / real_of_int l\<rceil> \<le> p - 1"
    using assms(2) by simp
  then have "real (length ps) / real_of_int l \<le> real_of_int (p - 1)"
    by (simp only: ceiling_le_iff)
  then have "real (length ps) \<le> real_of_int (p - 1) * real_of_int l"
    using assms(1) by (simp add: pos_divide_le_eq)
  then have "real_of_int (int (length ps)) \<le> real_of_int ((p - 1) * l)"
    by simp
  then have "int (length ps) \<le> (p - 1) * l" by (simp only: of_int_le_iff)
  then have "length ps \<le> nat ((p - 1) * l)" by simp
  then have "take (nat l) (drop (nat ((p - 1) * l)) ps) = []" by simp
  then show ?thesis
    using paginateResults_Fin[OF p assms(1), of ps] by (simp add: ceiling_rat_real)
qed

text \<open>
  Claim C5. For a limit in \<open>[1, 100]\<close> and a page number beyond \<open>totalPages\<close> (so also for
  \<open>totalPages + 1\<close>), \<open>paginateResults\<close> returns no data and the metadata of the collection:
  \<open>total\<close>, the page and the limit as given, and \<open>totalPages\<close>. The request succeeds: when
  the sort parameters are acceptable, the data file loads, and the page and the limit of
  the request are the numbers \<open>p\<close> and \<open>l\<close> with \<open>p\<close> beyond the last page of the filtered
  collection, the handler answers 200 with no data, the count of the filtered collection
  as \<open>total\<close>, and \<open>p\<close> and \<open>l\<close> as page and limit. And whatever the \<open>page\<close> parameter is,
  the status of the response is the same.
\<close>

theorem page_beyond_last_is_empty:
  "(1 \<le> l \<and> l \<le> 100 \<and> \<lceil>real (length ps) / real_of_int l\<rceil> < p \<longrightarrow>
      paginateResults ps (Fin (of_int p)) (Fin (of_int l)) =
        \<lparr>data = [],
         meta = \<lparr>total' = Fin (of_nat (length ps)), page = Fin (of_int p),
                 limit = Fin (of_int l),
                 totalPages = Fin (of_int \<lceil>real (length ps) / real_of_int l\<rceil>)\<rparr>\<rparr>)
   \<and> (get params ''sortBy'' \<in> {None, Some [], Some ''age'', Some ''patient_name''}
      \<and> get params ''sortOrder'' \<in> {None, Some [], Some ''asc'', Some ''desc''}
      \<and> Math_max (Fin 1) (parseInt (or_default (get params ''page'') ''1'')) = Fin (of_int p)
      \<and> Math_min (Fin 100)
           (Math_max (Fin 1) (parseInt (or_default (get params ''limit'') ''20'')))
          = Fin (of_int l)
      \<and> \<lceil>real (length (filterPatients allPatients params)) / real_of_int l\<rceil> < p \<longrightarrow>
      GET lc (Some allPatients) params =
        \<lparr>status = 200,
         body = Payload
           \<lparr>data = [],
            meta = \<lparr>total' = Fin (of_nat (length (filterPatients allPatients params))),
                    page = Fin (of_int p), limit = Fin (of_int l),
                    totalPages = Fin (of_int
                      \<lceil>real (length (filterPatients allPatients params)) / real_of_int l\<rceil>)\<rparr>\<rparr>\<rparr>)
   \<and> status (GET lc file ((''page'', s) # params)) = status (GET lc file params)"
proof (intro conjI impI)
  assume "1 \<le> l \<and> l \<le> 100 \<and> \<lceil>real (length ps) / real_of_int l\<rceil> < p"
  then show "paginateResults ps (Fin (of_int p)) (Fin (of_int l)) =
        \<lparr>data = [],
         meta = \<lparr>total' = Fin (of_nat (length ps)), page = Fin (of_int p),
                 limit = Fin (of_int l),
                 totalPages = Fin (of_int \<lceil>real (length ps) / real_of_int l\<rceil>)\<rparr>\<rparr>"
    by (simp add: page_beyond_last)
next
  assume h: "get params ''sortBy'' \<in> {None, Some [], Some ''age'', Some ''patient_name''}
      \<and> get params ''sortOrder'' \<in> {None, Some [], Some ''asc'', Some ''desc''}
      \<and> Math_max (Fin 1) (parseInt (or_default (get params ''page'') ''1'')) = Fin (of_int p)
      \<and> Math_min (Fin 100)
           (Math_max (Fin 1) (parseInt (or_default (get params ''limit'') ''20'')))
          = Fin (of_int l)
      \<and> \<lceil>real (length (filterPatients allPatients params)) / real_of_int l\<rceil> < p"
  define sorted where "sorted = sortPatients lc (filterPatients allPatients params)
           (Some (or_default (get params ''sortBy'') []))
           (Some (or_default (get params ''sortOrder'') ''asc''))"
  have len: "length sorted = length (filterPatients allPatients params)"
    unfolding sorted_def by (rule length_sortPatients)
  obtain q where "1 \<le> q" and "Fin (of_int l) = Fin (of_int q)"
    using h limit_clamp_cases[of "or_default (get params ''limit'') ''20''"] by auto
  then have l: "1 \<le> l" by simp
  have "GET lc (Some allPatients) params =
        \<lparr>status = 200,
         body = Payload (paginateResults sorted (Fin (of_int p)) (Fin (of_int l)))\<rparr>"
    using h GET_success[of params lc allPatients] unfolding sorted_def by simp
  moreover have "paginateResults sorted (Fin (of_int p)) (Fin (of_int l)) =
        \<lparr>data = [],
         meta = \<lparr>total' = Fin (of_nat (length sorted)), page = Fin (of_int p),
                 limit = Fin (of_int l),
                 totalPages = Fin (of_int \<lceil>real (length sorted) / real_of_int l\<rceil>)\<rparr>\<rparr>"
    using h l by (intro page_beyond_last) (simp_all add: len)
  ultimately show "GET lc (Some allPatients) params =
        \<lparr>status = 200,
         body = Payload
           \<lparr>data = [],
            meta = \<lparr>total' = Fin (of_nat (length (filterPatients allPatients params))),
                    page = Fin (of_int p), limit = Fin (of_int l),
                    totalPages = Fin (of_int
                      \<lceil>real (length (filterPatients allPatients params)) / real_of_int l\<rceil>)\<rparr>\<rparr>\<rparr>"
    by (simp add: len)
next
  show "status (GET lc file ((''page'', s) # params)) = status (GET lc file params)"
    by (simp add: GET_def get_def Let_def split: sum.splits)
qed

theorem page_beyond_last_is_empty_witness:
  "((1::int) \<le> 3 \<and> (3::int) \<le> 100 \<and> \<lceil>real (length ages_example) / real_of_int 3\<rceil> < 3)
   \<and> data (paginateResults ages_example (Fin (of_int 3)) (Fin (of_int 3))) = []
   \<and> (get [(''page'', ''3''), (''limit'', ''3'')] ''sortBy''
         \<in> {None, Some [], Some ''age'', Some ''patient_name''}
      \<and> get [(''page'', ''3''), (''limit'', ''3'')] ''sortOrder''
         \<in> {None, Some [], Some ''asc'', Some ''desc''}
      \<and> Math_max (Fin 1)
           (parseInt (or_default (get [(''page'', ''3''), (''limit'', ''3'')] ''page'') ''1''))
          = Fin (of_int 3)
      \<and> Math_min (Fin 100) (Math_max (Fin 1)
           (parseInt (or_default (get [(''page'', ''3''), (''limit'', ''3'')] ''limit'') ''20'')))
          = Fin (of_int 3)
      \<and> \<lceil>real (length (filterPatients ages_example [(''page'', ''3''), (''limit'', ''3'')]))
           / real_of_int 3\<rceil> < 3)
   \<and> GET localeCompare_ascii (Some ages_example) [(''page'', ''3''), (''limit'', ''3'')] =
        \<lparr>status = 200,
         body = Payload
           \<lparr>data = [],
            meta = \<lparr>total' = Fin 4, page = Fin 3, limit = Fin 3, totalPages = Fin 2\<rparr>\<rparr>\<rparr>"
proof -
  have h1: "(1::int) \<le> 3 \<and> (3::int) \<le> 100
            \<and> \<lceil>real (length ages_example) / real_of_int 3\<rceil> < 3"
    by (simp add: ages_example_def)
  have f: "filterPatients ages_example [(''page'', ''3''), (''limit'', ''3'')] = ages_example"
    by code_simp
  have g1: "get [(''page'', ''3''), (''limit'', ''3'')] ''sortBy''
         \<in> {None, Some [], Some ''age'', Some ''patient_name''}"
    and g2: "get [(''page'', ''3''), (''limit'', ''3'')] ''sortOrder''
         \<in> {None, Some [], Some ''asc'', Some ''desc''}"
    by (simp_all add: get_def)
  have g3: "Math_max (Fin 1)
           (parseInt (or_default (get [(''page'', ''3''), (''limit'', ''3'')] ''page'') ''1''))
          = Fin (of_int 3)"
    and g4: "Math_min (Fin 100) (Math_max (Fin 1)
           (parseInt (or_default (get [(''page'', ''3''), (''limit'', ''3'')] ''limit'') ''20'')))
          = Fin (of_int 3)"
    by code_simp+
  have g5: "\<lceil>real (length (filterPatients ages_example [(''page'', ''3''), (''limit'', ''3'')]))
           / real_of_int 3\<rceil> < 3"
    unfolding f by (simp add: ages_example_def)
  note w = page_beyond_last_is_empty[of 3 ages_example 3 "[(''page'', ''3''), (''limit'', ''3'')]"
      ages_example localeCompare_ascii]
  have c1: "data (paginateResults ages_example (Fin (of_int 3)) (Fin (of_int 3))) = []"
    using w h1 by simp
  have "GET localeCompare_ascii (Some ages_example) [(''page'', ''3''), (''limit'', ''3'')] =
        \<lparr>status = 200,
         body = Payload
           \<lparr>data = [],
            meta = \<lparr>total' = Fin (of_nat (length
                      (filterPatients ages_example [(''page'', ''3''), (''limit'', ''3'')]))),
                    page = Fin (of_int 3), limit = Fin (of_int 3),
                    totalPages = Fin (of_int
                      \<lceil>real (length (filterPatients ages_example
                          [(''page'', ''3''), (''limit'', ''3'')])) / real_of_int 3\<rceil>)\<rparr>\<rparr>\<rparr>"
    using w g1 g2 g3 g4 g5 by blast
  then have c2: "GET localeCompare_ascii (Some ages_example) [(''page'', ''3''), (''limit'', ''3'')] =
        \<lparr>status = 200,
         body = Payload
           \<lparr>data = [],
            meta = \<lparr>total' = Fin 4, page = Fin 3, limit = Fin 3, totalPages = Fin 2\<rparr>\<rparr>\<rparr>"
    unfolding f by (simp add: ages_example_def)
  from h1 c1 g1 g2 g3 g4 g5 c2 show ?thesis by blast
qed

subsection \<open>The filter stage\<close>

lemma toLowerCase_Nil: "toLowerCase s = [] \<longleftrightarrow> s = []"
  by (simp add: toLowerCase_def)

lemma filterPatients_eq:
  "filterPatients ps params =
     filter (\<lambda>p. matches_search params p \<and> passes_ageMin params p \<and>
                 passes_ageMax params p \<and> matches_issue params p) ps"
proof -
  have s: "(if truthy (map_option toLowerCase (get params ''search''))
            then filter (\<lambda>patient.
                    includes_str (toLowerCase (patient_name patient))
                      (the (map_option toLowerCase (get params ''search''))) \<or>
                    includes_str (toLowerCase (medical_issue patient))
                      (the (map_option toLowerCase (get params ''search'')))) xs
            else xs) = filter (matches_search params) xs" for xs
    by (cases "get params ''search''")
       (auto simp: truthy_def matches_search_def toLowerCase_Nil intro!: filter_cong)
  have lo: "(if truthy (get params ''ageMin'')
             then (if \<not> isNaN (parseInt (the (get params ''ageMin'')))
                   then filter (\<lambda>patient. js_le (parseInt (the (get params ''ageMin'')))
                                  (Fin (of_int (age patient)))) xs
                   else xs)
             else xs) = filter (passes_ageMin params) xs" for xs
    by (cases "get params ''ageMin''") (auto simp: truthy_def passes_ageMin_def intro!: filter_cong)
  have hi: "(if truthy (get params ''ageMax'')
             then (if \<not> isNaN (parseInt (the (get params ''ageMax'')))
                   then filter (\<lambda>patient. js_le (Fin (of_int (age patient)))
                                  (parseInt (the (get params ''ageMax'')))) xs
                   else xs)
             else xs) = filter (passes_ageMax params) xs" for xs
    by (cases "get params ''ageMax''") (auto simp: truthy_def passes_ageMax_def intro!: filter_cong)
  have mi: "(if truthy (get params ''medical_issue'')
             then filter (\<lambda>patient. toLowerCase (medical_issue patient)
                      \<in> set (map (\<lambda>issue. toLowerCase (trim issue))
                               (split CHR '','' (the (get params ''medical_issue''))))) xs
             else xs) = filter (matches_issue params) xs" for xs
    by (cases "get params ''medical_issue''") (auto simp: truthy_def matches_issue_def intro!: filter_cong)
  have "filterPatients ps params =
        filter (matches_issue params) (filter (passes_ageMax params)
          (filter (passes_ageMin params) (filter (matches_search params) ps)))"
    unfolding filterPatients_def Let_def s lo hi mi ..
  also have "\<dots> = filter (\<lambda>p. matches_search params p \<and> passes_ageMin params p \<and>
                 passes_ageMax params p \<and> matches_issue params p) ps"
    by (simp add: conj_commute conj_left_commute)
  finally show ?thesis .
qed

text \<open>
  Claim C9. Filtering is idempotent: the filter stage applied to its own output, with the
  same parameters, returns that output.
\<close>

theorem filterPatients_idempotent:
  "filterPatients (filterPatients ps params) params = filterPatients ps params"
  by (simp add: filterPatients_eq)

lemma get_delete: "get (delete n params) k = (if k = n then None else get params k)"
  unfolding get_def delete_def by (induction params) auto






text \<open>The filter stage reads its four parameters only.\<close>

lemma filterPatients_delete_other:
  assumes "n \<notin> {''search'', ''ageMin'', ''ageMax'', ''medical_issue''}"
  shows "filterPatients ps (delete n params) = filterPatients ps params"
proof -
  have "get (delete n params) k = get params k"
    if "k \<in> {''search'', ''ageMin'', ''ageMax'', ''medical_issue''}" for k
    using that assms by (auto simp: get_delete)
  then show ?thesis
    by (simp add: filterPatients_eq matches_search_def passes_ageMin_def passes_ageMax_def
        matches_issue_def)
qed





subsection \<open>Validation of the sort parameters\<close>

lemma sortBy_message:
  "''Invalid sortBy field. Must be one of: '' @ join '', '' validSortFields =
   ''Invalid sortBy field. Must be one of: age, patient_name''"
  by (simp add: validSortFields_def)

lemma sortOrder_message:
  "''Invalid sortOrder. Must be one of: '' @ join '', '' validSortOrders =
   ''Invalid sortOrder. Must be one of: asc, desc''"
  by (simp add: validSortOrders_def)

lemma GET_bad_sortBy:
  assumes "get params ''sortBy'' = Some v" and "v \<noteq> []" and "v \<notin> {''age'', ''patient_name''}"
  shows "GET lc file params =
     \<lparr>status = 400,
      body = ErrorBody ''Invalid sortBy field. Must be one of: age, patient_name'' None\<rparr>"
proof -
  have "or_default (get params ''sortBy'') [] = v"
    using assms by (simp add: or_default_def)
  moreover have "v \<notin> set validSortFields"
    using assms(3) by (simp add: validSortFields_def)
  ultimately show ?thesis
    using assms(2) unfolding GET_def Let_def sortBy_message by simp
qed

lemma GET_bad_sortOrder:
  assumes "\<not> (\<exists>v. get params ''sortBy'' = Some v \<and> v \<noteq> [] \<and> v \<notin> {''age'', ''patient_name''})"
    and "get params ''sortOrder'' = Some w" and "w \<noteq> []" and "w \<notin> {''asc'', ''desc''}"
  shows "GET lc file params =
     \<lparr>status = 400,
      body = ErrorBody ''Invalid sortOrder. Must be one of: asc, desc'' None\<rparr>"
proof -
  have "or_default (get params ''sortOrder'') ''asc'' = w"
    using assms by (simp add: or_default_def)
  moreover have "w \<notin> set validSortOrders"
    using assms(4) by (simp add: validSortOrders_def)
  moreover have "\<not> (or_default (get params ''sortBy'') [] \<noteq> [] \<and>
                   or_default (get params ''sortBy'') [] \<notin> set validSortFields)"
    using assms(1)
    by (cases "get params ''sortBy''") (auto simp: or_default_def validSortFields_def)
  ultimately show ?thesis
    using assms(3) unfolding GET_def Let_def sortOrder_message by simp
qed

lemma GET_delete_empty_sortBy:
  assumes "get params ''sortBy'' = Some []"
  shows "GET lc file (delete ''sortBy'' params) = GET lc file params"
proof -
  have g1: "get (delete ''sortBy'' params) ''page'' = get params ''page''"
    and g2: "get (delete ''sortBy'' params) ''limit'' = get params ''limit''"
    and g4: "get (delete ''sortBy'' params) ''sortOrder'' = get params ''sortOrder''"
    by (simp_all add: get_delete)
  have g3: "or_default (get (delete ''sortBy'' params) ''sortBy'') [] =
            or_default (get params ''sortBy'') []"
    using assms by (simp add: get_delete or_default_def)
  have f: "filterPatients ps (delete ''sortBy'' params) = filterPatients ps params" for ps
    by (rule filterPatients_delete_other) simp
  show ?thesis unfolding GET_def g1 g2 g3 g4 f ..
qed

lemma GET_delete_empty_sortOrder:
  assumes "get params ''sortOrder'' = Some []"
  shows "GET lc file (delete ''sortOrder'' params) = GET lc file params"
proof -
  have g1: "get (delete ''sortOrder'' params) ''page'' = get params ''page''"
    and g2: "get (delete ''sortOrder'' params) ''limit'' = get params ''limit''"
    and g3: "get (delete ''sortOrder'' params) ''sortBy'' = get params ''sortBy''"
    by (simp_all add: get_delete)
  have g4: "or_default (get (delete ''sortOrder'' params) ''sortOrder'') ''asc'' =
            or_default (get params ''sortOrder'') ''asc''"
    using assms by (simp add: get_delete or_default_def)
  have f: "filterPatients ps (delete ''sortOrder'' params) = filterPatients ps params" for ps
    by (rule filterPatients_delete_other) simp
  show ?thesis unfolding GET_def g1 g2 g3 g4 f ..
qed

text \<open>
  Claim C6, as amended. A request whose \<open>sortBy\<close> is present, not empty and neither
  \<open>age\<close> nor \<open>patient_name\<close> gets the response 400 that names \<open>sortBy\<close> and its allowed
  values; a request whose \<open>sortBy\<close> is acceptable and whose \<open>sortOrder\<close> is present, not
  empty and neither \<open>asc\<close> nor \<open>desc\<close> gets the response 400 that names \<open>sortOrder\<close> and
  its allowed values. In both cases the response is the same for every state of the data
  file (also one that cannot be loaded) and every collation: no stage of the pipeline has
  a part in it. An empty \<open>sortBy\<close> or \<open>sortOrder\<close> is treated as absent: the response is
  that to the request without the parameter.
\<close>

theorem invalid_sort_rejected:
  "((\<exists>v. get params ''sortBy'' = Some v \<and> v \<noteq> [] \<and> v \<notin> {''age'', ''patient_name''}) \<longrightarrow>
      GET lc file params =
        \<lparr>status = 400,
         body = ErrorBody ''Invalid sortBy field. Must be one of: age, patient_name'' None\<rparr>
      \<and> GET lc' file' params = GET lc file params)
   \<and> (\<not> (\<exists>v. get params ''sortBy'' = Some v \<and> v \<noteq> [] \<and> v \<notin> {''age'', ''patient_name''}) \<and>
      (\<exists>w. get params ''sortOrder'' = Some w \<and> w \<noteq> [] \<and> w \<notin> {''asc'', ''desc''}) \<longrightarrow>
      GET lc file params =
        \<lparr>status = 400,
         body = ErrorBody ''Invalid sortOrder. Must be one of: asc, desc'' None\<rparr>
      \<and> GET lc' file' params = GET lc file params)
   \<and> (get params ''sortBy'' = Some [] \<longrightarrow>
      GET lc file params = GET lc file (delete ''sortBy'' params))
   \<and> (get params ''sortOrder'' = Some [] \<longrightarrow>
      GET lc file params = GET lc file (delete ''sortOrder'' params))"
proof (intro conjI; rule impI)
  assume "\<exists>v. get params ''sortBy'' = Some v \<and> v \<noteq> [] \<and> v \<notin> {''age'', ''patient_name''}"
  then obtain v where "get params ''sortBy'' = Some v" "v \<noteq> []"
    "v \<notin> {''age'', ''patient_name''}" by blast
  then show "GET lc file params =
        \<lparr>status = 400,
         body = ErrorBody ''Invalid sortBy field. Must be one of: age, patient_name'' None\<rparr>
      \<and> GET lc' file' params = GET lc file params"
    by (simp add: GET_bad_sortBy)
next
  assume h: "\<not> (\<exists>v. get params ''sortBy'' = Some v \<and> v \<noteq> [] \<and> v \<notin> {''age'', ''patient_name''}) \<and>
      (\<exists>w. get params ''sortOrder'' = Some w \<and> w \<noteq> [] \<and> w \<notin> {''asc'', ''desc''})"
  then obtain w where "get params ''sortOrder'' = Some w" "w \<noteq> []"
    "w \<notin> {''asc'', ''desc''}" by blast
  with h show "GET lc file params =
        \<lparr>status = 400,
         body = ErrorBody ''Invalid sortOrder. Must be one of: asc, desc'' None\<rparr>
      \<and> GET lc' file' params = GET lc file params"
    by (simp add: GET_bad_sortOrder)
next
  assume "get params ''sortBy'' = Some []"
  then show "GET lc file params = GET lc file (delete ''sortBy'' params)"
    by (simp add: GET_delete_empty_sortBy)
next
  assume "get params ''sortOrder'' = Some []"
  then show "GET lc file params = GET lc file (delete ''sortOrder'' params)"
    by (simp add: GET_delete_empty_sortOrder)
qed

theorem invalid_sort_rejected_witness:
  "(\<exists>v. get [(''sortBy'', ''height'')] ''sortBy'' = Some v \<and> v \<noteq> []
        \<and> v \<notin> {''age'', ''patient_name''})
   \<and> GET localeCompare_ascii (Some ages_example) [(''sortBy'', ''height'')] =
        \<lparr>status = 400,
         body = ErrorBody ''Invalid sortBy field. Must be one of: age, patient_name'' None\<rparr>
   \<and> \<not> (\<exists>v. get [(''sortBy'', ''age''), (''sortOrder'', ''up'')] ''sortBy'' = Some v \<and> v \<noteq> []
        \<and> v \<notin> {''age'', ''patient_name''})
   \<and> (\<exists>w. get [(''sortBy'', ''age''), (''sortOrder'', ''up'')] ''sortOrder'' = Some w \<and> w \<noteq> []
        \<and> w \<notin> {''asc'', ''desc''})
   \<and> GET localeCompare_ascii None [(''sortBy'', ''age''), (''sortOrder'', ''up'')] =
        \<lparr>status = 400,
         body = ErrorBody ''Invalid sortOrder. Must be one of: asc, desc'' None\<rparr>
   \<and> get [(''sortBy'', []), (''sortOrder'', [])] ''sortBy'' = Some []
   \<and> GET localeCompare_ascii (Some ages_example) [(''sortBy'', []), (''sortOrder'', [])] =
       GET localeCompare_ascii (Some ages_example)
         (delete ''sortBy'' [(''sortBy'', []), (''sortOrder'', [])])
   \<and> get [(''sortBy'', []), (''sortOrder'', [])] ''sortOrder'' = Some []
   \<and> GET localeCompare_ascii (Some ages_example) [(''sortBy'', []), (''sortOrder'', [])] =
       GET localeCompare_ascii (Some ages_example)
         (delete ''sortOrder'' [(''sortBy'', []), (''sortOrder'', [])])"
proof -
  have a: "\<exists>v. get [(''sortBy'', ''height'')] ''sortBy'' = Some v \<and> v \<noteq> []
        \<and> v \<notin> {''age'', ''patient_name''}"
    by (simp add: get_def)
  have b: "\<not> (\<exists>v. get [(''sortBy'', ''age''), (''sortOrder'', ''up'')] ''sortBy'' = Some v \<and> v \<noteq> []
        \<and> v \<notin> {''age'', ''patient_name''})"
    by (simp add: get_def)
  have c: "\<exists>w. get [(''sortBy'', ''age''), (''sortOrder'', ''up'')] ''sortOrder'' = Some w \<and> w \<noteq> []
        \<and> w \<notin> {''asc'', ''desc''}"
    by (simp add: get_def)
  have d: "get [(''sortBy'', []), (''sortOrder'', [])] ''sortBy'' = Some []"
    and e: "get [(''sortBy'', []), (''sortOrder'', [])] ''sortOrder'' = Some []"
    by (simp_all add: get_def)
  note w1 = invalid_sort_rejected[of "[(''sortBy'', ''height'')]" localeCompare_ascii
      "Some ages_example" localeCompare_ascii "Some ages_example"]
  note w2 = invalid_sort_rejected[of "[(''sortBy'', ''age''), (''sortOrder'', ''up'')]"
      localeCompare_ascii None localeCompare_ascii None]
  note w3 = invalid_sort_rejected[of "[(''sortBy'', []), (''sortOrder'', [])]"
      localeCompare_ascii "Some ages_example" localeCompare_ascii "Some ages_example"]
  have r1: "GET localeCompare_ascii (Some ages_example) [(''sortBy'', ''height'')] =
        \<lparr>status = 400,
         body = ErrorBody ''Invalid sortBy field. Must be one of: age, patient_name'' None\<rparr>"
    using w1 a by blast
  have r2: "GET localeCompare_ascii None [(''sortBy'', ''age''), (''sortOrder'', ''up'')] =
        \<lparr>status = 400,
         body = ErrorBody ''Invalid sortOrder. Must be one of: asc, desc'' None\<rparr>"
    using w2 b c by blast
  have r3: "GET localeCompare_ascii (Some ages_example) [(''sortBy'', []), (''sortOrder'', [])] =
       GET localeCompare_ascii (Some ages_example)
         (delete ''sortBy'' [(''sortBy'', []), (''sortOrder'', [])])"
    using w3 d by blast
  have r4: "GET localeCompare_ascii (Some ages_example) [(''sortBy'', []), (''sortOrder'', [])] =
       GET localeCompare_ascii (Some ages_example)
         (delete ''sortOrder'' [(''sortBy'', []), (''sortOrder'', [])])"
    using w3 e by blast
  show ?thesis by (intro conjI) (rule a r1 b c r2 d r3 e r4)+
qed

text \<open>
  The claim as first stated fails on an empty value: \<open>?sortBy=\<close> has a \<open>sortBy\<close> that is
  present and is neither \<open>age\<close> nor \<open>patient_name\<close>, and \<open>?sortOrder=\<close> a \<open>sortOrder\<close> that
  is neither \<open>asc\<close> nor \<open>desc\<close>; the handler takes both as absent and answers 200.
\<close>

theorem empty_sort_parameter_not_rejected:
  "get [(''sortBy'', [])] ''sortBy'' = Some []
   \<and> [] \<notin> {''age'', ''patient_name''}
   \<and> status (GET localeCompare_ascii (Some ages_example) [(''sortBy'', [])]) = 200
   \<and> get [(''sortOrder'', [])] ''sortOrder'' = Some []
   \<and> [] \<notin> {''asc'', ''desc''}
   \<and> status (GET localeCompare_ascii (Some ages_example) [(''sortOrder'', [])]) = 200"
  by code_simp

subsection \<open>Sorting by name\<close>

lemma sortPatients_name_sorted:
  assumes tot: "\<And>s t. lc s t \<le> 0 \<or> lc t s \<le> 0"
    and trans: "\<And>s t u. lc s t \<le> 0 \<Longrightarrow> lc t u \<le> 0 \<Longrightarrow> lc s u \<le> 0"
  shows "sorted_wrt (\<lambda>a b. lc (patient_name a) (patient_name b) \<le> 0)
           (sortPatients lc ps (Some ''patient_name'') (Some ''asc''))"
proof -
  have "sorted_wrt (\<lambda>a b. lc (patient_name a) (patient_name b) \<le> 0)
          (js_sort (\<lambda>a b. lc (patient_name a) (patient_name b)) ps)"
    by (rule sorted_js_sort) (use tot trans in blast)+
  then show ?thesis by (simp add: sortPatients_name)
qed

text \<open>
  Claim C8 (fails on the code). The sort stage calls \<open>localeCompare\<close> with no options, so
  case counts: of the names \<open>Alice\<close> and \<open>alice\<close>, in this order, the second is sorted
  before the first, where a case-insensitive comparison (the one the client uses, with
  \<open>sensitivity: 'base'\<close>) takes them as equal and keeps their order.
\<close>

theorem sortPatients_name_case_sensitive:
  "map id' (sortPatients localeCompare_ascii names_example (Some ''patient_name'') (Some ''asc''))
     = [2, 1, 3]
   \<and> localeCompare_ascii ''Alice'' ''alice'' = 1
   \<and> localeCompare_base ''Alice'' ''alice'' = 0
   \<and> map id' (js_sort (\<lambda>a b. localeCompare_base (patient_name a) (patient_name b))
        names_example) = [1, 2, 3]"
  by code_simp

end
